theory Spec2Isabelle
  imports Complex_Main "HOL-Library.Log_Nat"
begin

section \<open>The trailing-stop risk management model\<close>

text \<open>
  A shallow embedding of \<^verbatim>\<open>Algorithm.Framework/Risk/TrailingStopRiskManagementModel.py\<close>.

  Prices and the drawdown percentage are Python floats in the source, that is IEEE 754
  double-precision numbers. A finite double is the real number it denotes, so prices are
  of type \<^typ>\<open>real\<close>; comparison and \<^verbatim>\<open>abs\<close> are exact on doubles, while \<^verbatim>\<open>-\<close> and
  \<^verbatim>\<open>*\<close> round their exact result to the nearest double, as defined below. The source
  compares \<open>maxHigh == None\<close> (not truthiness), so a stored high of zero is a stored high.
\<close>

subsection \<open>Double-precision arithmetic\<close>

text \<open>
  \<open>pow2 e\<close> is two to the power \<open>e\<close>, and \<open>binade x\<close> is the exponent \<open>e\<close> with
  \<open>pow2 e \<le> \<bar>x\<bar> < pow2 (e + 1)\<close> for a nonzero \<open>x\<close> (lemma \<open>binade_bounds\<close> below).
\<close>

definition pow2 :: "int \<Rightarrow> real" where
  "pow2 e = (if 0 \<le> e then 2 ^ nat e else 1 / 2 ^ nat (- e))"

definition binade :: "real \<Rightarrow> int" where
  "binade x =
     (if 1 \<le> \<bar>x\<bar> then bitlen \<lfloor>\<bar>x\<bar>\<rfloor> - 1
      else - bitlen (\<lceil>1 / \<bar>x\<bar>\<rceil> - 1))"

text \<open>Rounding to the nearest integer, a tie going to the even one.\<close>

definition round_half_even :: "real \<Rightarrow> int" where
  "round_half_even q =
     (let f = \<lfloor>q\<rfloor>; r = q - of_int f
      in if r < 1 / 2 then f
         else if 1 / 2 < r then f + 1
         else if even f then f else f + 1)"

text \<open>
  Rounding to the nearest double, ties to even: 53 significant bits, so the spacing of
  doubles around \<open>x\<close> is \<open>pow2 (binade x - 52)\<close>, and never below \<open>pow2 (- 1074)\<close>
  (subnormal numbers). The exponent is not bounded above: where the source's result would
  be an infinity, the value here is beyond every finite double on the same side, so it
  compares with a finite double as the infinity does. Differences and products of finite
  doubles are never NaN.
\<close>

definition round_double :: "real \<Rightarrow> real" where
  "round_double x =
     (if x = 0 then 0
      else let e = max (binade x) (- 1022) - 52
           in of_int (round_half_even (x / pow2 e)) * pow2 e)"

text \<open>\<^verbatim>\<open>x - y\<close> and \<^verbatim>\<open>x * y\<close> on floats.\<close>

definition float_sub :: "real \<Rightarrow> real \<Rightarrow> real" where
  "float_sub x y = round_double (x - y)"

definition float_mul :: "real \<Rightarrow> real \<Rightarrow> real" where
  "float_mul x y = round_double (x * y)"

text \<open>The float literal \<^verbatim>\<open>0.05\<close>: the double nearest to 5/100.\<close>

definition five_percent :: real where
  "five_percent = round_double 0.05"

subsection \<open>Data\<close>

text \<open>The three members of a security that \<^verbatim>\<open>ManageRisk\<close> reads.\<close>

record Security =
  Invested :: bool
  High :: real
  Low :: real

text \<open>\<^verbatim>\<open>PortfolioTarget(symbol, 0)\<close>: a symbol and a target quantity.\<close>

datatype 'k PortfolioTarget = PortfolioTarget (Symbol: 'k) (Quantity: int)

text \<open>
  \<^verbatim>\<open>algorithm.Securities\<close> is a dictionary from symbol to security that the loop
  enumerates as key/value pairs; it is the list of those pairs in enumeration order.
  A dictionary holds each key once, which is \<open>distinct (map fst (Securities algorithm))\<close>.
\<close>

record 'k QCAlgorithm =
  Securities :: "('k \<times> Security) list"

text \<open>The object state: \<^verbatim>\<open>self.maximumDrawdownPercent\<close> and \<^verbatim>\<open>self.trailingHighs\<close>.\<close>

record 'k TrailingStopRiskManagementModel =
  maximumDrawdownPercent :: real
  trailingHighs :: "'k \<rightharpoonup> real"

subsection \<open>Operations\<close>

text \<open>\<^verbatim>\<open>__init__(self, maximumDrawdownPercent = 0.05)\<close>\<close>

definition init :: "real \<Rightarrow> 'k TrailingStopRiskManagementModel" where
  "init maximumDrawdownPercent' =
     \<lparr> maximumDrawdownPercent = \<bar>maximumDrawdownPercent'\<bar>,
       trailingHighs = Map.empty \<rparr>"

definition init_default :: "'k TrailingStopRiskManagementModel" where
  "init_default = init five_percent"

text \<open>
  One iteration of \<^verbatim>\<open>for kvp in algorithm.Securities\<close>, on the pair of the dictionary
  \<^verbatim>\<open>self.trailingHighs\<close> and the list \<^verbatim>\<open>riskAdjustedTargets\<close>. Each \<^verbatim>\<open>continue\<close> is a
  branch that returns. The threshold \<^verbatim>\<open>maxHigh * (1.0 - self.maximumDrawdownPercent)\<close> is a
  float subtraction followed by a float multiplication.
\<close>

definition ManageRisk_step ::
  "real \<Rightarrow> 'k \<times> Security \<Rightarrow> ('k \<rightharpoonup> real) \<times> 'k PortfolioTarget list
     \<Rightarrow> ('k \<rightharpoonup> real) \<times> 'k PortfolioTarget list" where
  "ManageRisk_step mdp kvp st =
     (let symbol = fst kvp; security = snd kvp;
          highs = fst st; riskAdjustedTargets = snd st
      in if \<not> Invested security then (highs(symbol := None), riskAdjustedTargets)
         else
           let high = High security; maxHigh = highs symbol
           in case maxHigh of
                None \<Rightarrow> (highs(symbol \<mapsto> high), riskAdjustedTargets)
              | Some mh \<Rightarrow>
                  if mh < high then (highs(symbol \<mapsto> high), riskAdjustedTargets)
                  else if Low security < float_mul mh (float_sub 1.0 mdp)
                       then (highs, riskAdjustedTargets @ [PortfolioTarget symbol 0])
                       else (highs, riskAdjustedTargets))"

fun ManageRisk_loop ::
  "real \<Rightarrow> ('k \<times> Security) list \<Rightarrow> ('k \<rightharpoonup> real) \<times> 'k PortfolioTarget list
     \<Rightarrow> ('k \<rightharpoonup> real) \<times> 'k PortfolioTarget list" where
  "ManageRisk_loop mdp [] st = st"
| "ManageRisk_loop mdp (kvp # rest) st = ManageRisk_loop mdp rest (ManageRisk_step mdp kvp st)"

text \<open>
  \<^verbatim>\<open>ManageRisk(self, algorithm, targets)\<close>: the updated object and the returned list.
  The argument \<^verbatim>\<open>targets\<close> is not read.
\<close>

definition ManageRisk ::
  "'k TrailingStopRiskManagementModel \<Rightarrow> 'k QCAlgorithm \<Rightarrow> 'k PortfolioTarget list
     \<Rightarrow> 'k TrailingStopRiskManagementModel \<times> 'k PortfolioTarget list" where
  "ManageRisk self algorithm targets =
     (let st = ManageRisk_loop (maximumDrawdownPercent self) (Securities algorithm)
                 (trailingHighs self, [])
      in (self\<lparr>trailingHighs := fst st\<rparr>, snd st))"

subsection \<open>The engine's time steps\<close>

text \<open>
  The engine calls \<^verbatim>\<open>ManageRisk\<close> once per time step on the same object. A run is the
  list of the securities dictionaries seen at the successive time steps; it returns the
  final object and the list returned at each time step.
\<close>

fun ManageRisk_run ::
  "'k TrailingStopRiskManagementModel \<Rightarrow> 'k QCAlgorithm list
     \<Rightarrow> 'k TrailingStopRiskManagementModel \<times> 'k PortfolioTarget list list" where
  "ManageRisk_run self [] = (self, [])"
| "ManageRisk_run self (algorithm # later) =
     (let r = ManageRisk self algorithm [];
          rs = ManageRisk_run (fst r) later
      in (fst rs, snd r # snd rs))"

subsection \<open>Notions used to state the properties\<close>

text \<open>The targets of a returned list that name a given symbol.\<close>

definition instructions_for :: "'k \<Rightarrow> 'k PortfolioTarget list \<Rightarrow> 'k PortfolioTarget list" where
  "instructions_for k out = filter (\<lambda>t. Symbol t = k) out"

text \<open>The target appended for a dictionary entry: \<^verbatim>\<open>PortfolioTarget(symbol, 0)\<close>.\<close>

definition liquidate :: "'k \<times> Security \<Rightarrow> 'k PortfolioTarget" where
  "liquidate kvp = PortfolioTarget (fst kvp) 0"

text \<open>
  What one visit of a security does to the stored high of its own symbol: removed when
  not invested, set to the security's high when there is none or a lower one, kept
  otherwise.
\<close>

definition next_high :: "real option \<Rightarrow> Security \<Rightarrow> real option" where
  "next_high old security =
     (if \<not> Invested security then None
      else case old of None \<Rightarrow> Some (High security)
           | Some mh \<Rightarrow> if mh < High security then Some (High security) else Some mh)"

text \<open>
  The trigger condition of an entry against a dictionary of stored highs: the security
  is invested, a high is stored for its symbol, the security's high does not exceed it,
  and the security's low is strictly below the float product of the stored high and the
  float difference of one and the drawdown percentage.
\<close>

definition triggers :: "real \<Rightarrow> ('k \<rightharpoonup> real) \<Rightarrow> 'k \<times> Security \<Rightarrow> bool" where
  "triggers mdp highs kvp =
     (Invested (snd kvp) \<and>
      (case highs (fst kvp) of None \<Rightarrow> False
       | Some mh \<Rightarrow> \<not> mh < High (snd kvp) \<and> Low (snd kvp) < float_mul mh (float_sub 1 mdp)))"

text \<open>
  The highest of a list of observed highs; no value for the empty list.
\<close>

definition maximum_of :: "real list \<Rightarrow> real option" where
  "maximum_of hs = (if hs = [] then None else Some (Max (set hs)))"

text \<open>
  The highs observed for a symbol since its stored high was established, before and
  after one time step: a time step whose dictionary does not hold the symbol observes
  nothing; one that holds it not invested ends the observation; one that holds it
  invested adds the security's high.
\<close>

definition observe :: "'k \<Rightarrow> real list \<Rightarrow> 'k QCAlgorithm \<Rightarrow> real list" where
  "observe k hs algorithm =
     (case map_of (Securities algorithm) k of
        None \<Rightarrow> hs
      | Some security \<Rightarrow> if Invested security then hs @ [High security] else [])"

text \<open>
  A run in which, at every time step, the symbol is held invested and the high stored
  for it before that time step (if there is one) stands in the given relation to the
  security's high.
\<close>

fun stored_related ::
  "(real \<Rightarrow> real \<Rightarrow> bool) \<Rightarrow> 'k TrailingStopRiskManagementModel \<Rightarrow> 'k \<Rightarrow> 'k QCAlgorithm list \<Rightarrow> bool" where
  "stored_related rel self k [] = True"
| "stored_related rel self k (algorithm # later) =
     (case map_of (Securities algorithm) k of
        None \<Rightarrow> False
      | Some security \<Rightarrow>
          Invested security \<and>
          (case trailingHighs self k of None \<Rightarrow> True | Some H \<Rightarrow> rel H (High security)) \<and>
          stored_related rel (fst (ManageRisk self algorithm [])) k later)"

subsection \<open>Example data\<close>

text \<open>
  A securities dictionary holding one security, and an object with the drawdown
  percentage \<^verbatim>\<open>0.05\<close> and given stored highs.
\<close>

abbreviation holding :: "'k \<Rightarrow> bool \<Rightarrow> real \<Rightarrow> real \<Rightarrow> 'k QCAlgorithm" where
  "holding k invested high low \<equiv>
     \<lparr>Securities = [(k, \<lparr>Invested = invested, High = high, Low = low\<rparr>)]\<rparr>"

abbreviation tracking :: "('k \<rightharpoonup> real) \<Rightarrow> 'k TrailingStopRiskManagementModel" where
  "tracking highs \<equiv> \<lparr>maximumDrawdownPercent = five_percent, trailingHighs = highs\<rparr>"

section \<open>Facts about the arithmetic\<close>

lemma binade_bounds:
  assumes "x \<noteq> 0"
  shows "pow2 (binade x) \<le> \<bar>x\<bar> \<and> \<bar>x\<bar> < pow2 (binade x + 1)"
proof (cases "1 \<le> \<bar>x\<bar>")
  case True
  let ?n = "\<lfloor>\<bar>x\<bar>\<rfloor>"
  let ?b = "bitlen ?n"
  from True have n: "0 < ?n" by simp
  then have bnd: "2 ^ nat (?b - 1) \<le> ?n" "?n < 2 ^ nat ?b"
    using bitlen_bounds [of ?n] by simp_all
  have b: "1 \<le> ?b"
  proof (rule ccontr)
    assume "\<not> 1 \<le> ?b"
    then have "nat ?b = 0" by simp
    with bnd(2) have "?n < 1" by simp
    with n show False by simp
  qed
  have "real_of_int (2 ^ nat (?b - 1)) \<le> real_of_int ?n"
    using bnd(1) by (simp only: of_int_le_iff)
  also have "\<dots> \<le> \<bar>x\<bar>" by simp
  finally have lo: "2 ^ nat (?b - 1) \<le> \<bar>x\<bar>" by simp
  from bnd(2) have "?n + 1 \<le> 2 ^ nat ?b" by simp
  then have "real_of_int (?n + 1) \<le> real_of_int (2 ^ nat ?b)"
    by (simp only: of_int_le_iff)
  then have up: "real_of_int ?n + 1 \<le> 2 ^ nat ?b" by simp
  have "\<bar>x\<bar> < real_of_int ?n + 1" by linarith
  with up have hi: "\<bar>x\<bar> < 2 ^ nat ?b" by linarith
  from True b lo hi show ?thesis
    by (simp add: binade_def pow2_def)
next
  case False
  let ?y = "1 / \<bar>x\<bar>"
  let ?m = "\<lceil>?y\<rceil> - 1"
  let ?b = "bitlen ?m"
  from False assms have x: "0 < \<bar>x\<bar>" "\<bar>x\<bar> < 1" by simp_all
  then have y: "1 < ?y" by simp
  then have m: "0 < ?m" by linarith
  then have bnd: "2 ^ nat (?b - 1) \<le> ?m" "?m < 2 ^ nat ?b"
    using bitlen_bounds [of ?m] by simp_all
  have b: "1 \<le> ?b"
  proof (rule ccontr)
    assume "\<not> 1 \<le> ?b"
    then have "nat ?b = 0" by simp
    with bnd(2) have "?m < 1" by simp
    with m show False by simp
  qed
  have my: "real_of_int ?m < ?y" "?y \<le> real_of_int ?m + 1"
    by linarith+
  from bnd(2) have "?m + 1 \<le> 2 ^ nat ?b" by simp
  then have "real_of_int (?m + 1) \<le> real_of_int (2 ^ nat ?b)"
    by (simp only: of_int_le_iff)
  then have "real_of_int ?m + 1 \<le> 2 ^ nat ?b" by simp
  with my(2) have "?y \<le> 2 ^ nat ?b" by linarith
  with x(1) have lo: "1 / 2 ^ nat ?b \<le> \<bar>x\<bar>"
    by (simp add: field_simps)
  have "real_of_int (2 ^ nat (?b - 1)) \<le> real_of_int ?m"
    using bnd(1) by (simp only: of_int_le_iff)
  then have "2 ^ nat (?b - 1) \<le> real_of_int ?m" by simp
  with my(1) have "2 ^ nat (?b - 1) < ?y" by linarith
  with x(1) have hi: "\<bar>x\<bar> < 1 / 2 ^ nat (?b - 1)"
    by (simp add: field_simps)
  have "pow2 (- ?b) = 1 / 2 ^ nat ?b"
    using b by (simp add: pow2_def)
  moreover have "pow2 (- ?b + 1) = 1 / 2 ^ nat (?b - 1)"
  proof (cases "?b = 1")
    case True
    then show ?thesis by (simp add: pow2_def)
  next
    case False
    with b have "\<not> 0 \<le> - ?b + 1" by simp
    then show ?thesis by (simp add: pow2_def)
  qed
  moreover have "binade x = - ?b"
    using False by (simp add: binade_def)
  ultimately show ?thesis
    using lo hi by simp
qed

text \<open>The nearest integer is at most one half away.\<close>

lemma round_half_even_nearest: "\<bar>of_int (round_half_even q) - q\<bar> \<le> 1 / 2"
  by (simp add: round_half_even_def Let_def)

text \<open>
  The literal \<^verbatim>\<open>0.05\<close> and the thresholds \<^verbatim>\<open>maxHigh * (1.0 - 0.05)\<close> used in the examples.
\<close>

lemma five_percent_value: "five_percent = 3602879701896397 / 2 ^ 56"
  by code_simp

lemma five_percent_nonneg: "0 \<le> five_percent"
  by code_simp

lemma abs_five_percent: "\<bar>five_percent\<bar> = five_percent"
  using five_percent_nonneg by simp

lemma threshold_100: "float_mul 100 (float_sub 1 five_percent) = 95"
  by code_simp

lemma threshold_10: "float_mul 10 (float_sub 1 five_percent) = 19 / 2"
  by code_simp

lemma threshold_20: "float_mul 20 (float_sub 1 five_percent) = 19"
  by code_simp

text \<open>
  The threshold is the rounded one. With drawdown percentage 0.25 and stored high
  \<open>2 ^ 53 - 1\<close>, the exact product is 6755399441055743.25 and rounds to 6755399441055743:
  a low of 6755399441055743 is below the exact product, and the call returns no target.
\<close>

lemma threshold_below_two_to_53:
  "float_mul 9007199254740991 (float_sub 1 (1 / 4)) = 6755399441055743"
  by code_simp

lemma rounded_threshold_silent:
  "(6755399441055743 :: real) < 9007199254740991 * (1 - 1 / 4) \<and>
   snd (ManageRisk
          \<lparr>maximumDrawdownPercent = 1 / 4, trailingHighs = [''X'' \<mapsto> 9007199254740991]\<rparr>
          (holding ''X'' True 9007199254740991 6755399441055743) []) = []"
  by (simp add: ManageRisk_def ManageRisk_step_def Let_def threshold_below_two_to_53)

text \<open>
  With the doubles nearest to 16.6, 15.77 and 0.05 the threshold is above the low, and the
  call returns a target (in decimal arithmetic 16.6 times 0.95 is 15.77).
\<close>

lemma rounded_threshold_emits:
  "snd (ManageRisk (tracking [''X'' \<mapsto> round_double 16.6])
          (holding ''X'' True (round_double 16.6) (round_double 15.77)) [])
     = [PortfolioTarget ''X'' 0]"
  by code_simp

section \<open>The loop in closed form\<close>

text \<open>
  One iteration changes the stored high of the visited symbol only, and appends at most
  one target.
\<close>

lemma step_eq:
  "ManageRisk_step mdp kvp (highs, acc) =
     (highs(fst kvp := next_high (highs (fst kvp)) (snd kvp)),
      acc @ (if triggers mdp highs kvp then [liquidate kvp] else []))"
  by (auto simp: ManageRisk_step_def next_high_def triggers_def liquidate_def Let_def fun_eq_iff
      split: option.splits)

lemma step_emission_keeps_highs:
  "snd (ManageRisk_step mdp kvp st) \<noteq> snd st \<Longrightarrow> fst (ManageRisk_step mdp kvp st) = fst st"
  by (cases st) (auto simp: ManageRisk_step_def Let_def split: option.splits if_splits)

lemma step_removal_is_flat:
  "fst st k \<noteq> None \<Longrightarrow> fst (ManageRisk_step mdp kvp st) k = None \<Longrightarrow>
   fst kvp = k \<and> \<not> Invested (snd kvp)"
  by (cases st) (auto simp: ManageRisk_step_def Let_def split: option.splits if_splits)

text \<open>
  Over a dictionary, where every symbol is visited once, each visit sees the stored high
  the call started with.
\<close>

lemma loop_eq:
  "distinct (map fst xs) \<Longrightarrow>
   ManageRisk_loop mdp xs (highs, acc) =
     ((\<lambda>k. case map_of xs k of None \<Rightarrow> highs k | Some security \<Rightarrow> next_high (highs k) security),
      acc @ map liquidate (filter (triggers mdp highs) xs))"
proof (induction xs arbitrary: highs acc)
  case Nil
  then show ?case by simp
next
  case (Cons kvp rest)
  let ?h = "highs(fst kvp := next_high (highs (fst kvp)) (snd kvp))"
  from Cons.prems have notin: "fst kvp \<notin> fst ` set rest" and d: "distinct (map fst rest)"
    by auto
  have f: "filter (triggers mdp ?h) rest = filter (triggers mdp highs) rest"
  proof (rule filter_cong [OF refl])
    fix x assume "x \<in> set rest"
    then have "fst x \<in> fst ` set rest" by (rule imageI)
    with notin have "fst x \<noteq> fst kvp" by metis
    then show "triggers mdp ?h x = triggers mdp highs x"
      by (simp add: triggers_def)
  qed
  have m: "map_of rest (fst kvp) = None"
    using notin by (simp add: map_of_eq_None_iff)
  have h: "(\<lambda>k. case map_of rest k of None \<Rightarrow> ?h k | Some security \<Rightarrow> next_high (?h k) security)
           = (\<lambda>k. case map_of (kvp # rest) k of None \<Rightarrow> highs k
                  | Some security \<Rightarrow> next_high (highs k) security)"
    using m by (cases kvp) (auto simp: fun_eq_iff split: option.splits)
  have "ManageRisk_loop mdp (kvp # rest) (highs, acc) =
          ManageRisk_loop mdp rest (?h, acc @ (if triggers mdp highs kvp then [liquidate kvp] else []))"
    by (simp add: step_eq)
  also have "\<dots> = ((\<lambda>k. case map_of rest k of None \<Rightarrow> ?h k | Some security \<Rightarrow> next_high (?h k) security),
            (acc @ (if triggers mdp highs kvp then [liquidate kvp] else []))
              @ map liquidate (filter (triggers mdp ?h) rest))"
    by (rule Cons.IH [OF d])
  also have "\<dots> = ((\<lambda>k. case map_of (kvp # rest) k of None \<Rightarrow> highs k
                  | Some security \<Rightarrow> next_high (highs k) security),
            acc @ map liquidate (filter (triggers mdp highs) (kvp # rest)))"
    unfolding h f by simp
  finally show ?case .
qed

lemma ManageRisk_eq:
  assumes "distinct (map fst (Securities algorithm))"
  shows "ManageRisk self algorithm targets =
     (self\<lparr>trailingHighs := (\<lambda>k. case map_of (Securities algorithm) k of
                                   None \<Rightarrow> trailingHighs self k
                                 | Some security \<Rightarrow> next_high (trailingHighs self k) security)\<rparr>,
      map liquidate (filter (triggers (maximumDrawdownPercent self) (trailingHighs self))
                       (Securities algorithm)))"
  by (simp add: ManageRisk_def loop_eq [OF assms])

lemma ManageRisk_highs:
  assumes "distinct (map fst (Securities algorithm))"
    and "(k, security) \<in> set (Securities algorithm)"
  shows "trailingHighs (fst (ManageRisk self algorithm targets)) k =
           next_high (trailingHighs self k) security"
proof -
  from assms have "map_of (Securities algorithm) k = Some security"
    by (simp add: map_of_eq_Some_iff)
  then show ?thesis
    by (simp add: ManageRisk_eq [OF assms(1)])
qed

lemma Symbol_liquidate: "Symbol (liquidate kvp) = fst kvp"
  by (simp add: liquidate_def)

lemma liquidate_pair: "liquidate (k, security) = PortfolioTarget k 0"
  by (simp add: liquidate_def)

lemma instructions_for_liquidate:
  assumes "distinct (map fst xs)" and "(k, security) \<in> set xs"
  shows "instructions_for k (map liquidate (filter P xs)) =
           (if P (k, security) then [PortfolioTarget k 0] else [])"
  using assms
proof (induction xs)
  case Nil
  then show ?case by simp
next
  case (Cons x xs)
  show ?case
  proof (cases "x = (k, security)")
    case True
    with Cons.prems have "k \<notin> fst ` set xs" by auto
    then have "instructions_for k (map liquidate (filter P xs)) = []"
      by (auto simp: instructions_for_def filter_empty_conv Symbol_liquidate image_iff)
    with True show ?thesis
      by (simp add: instructions_for_def Symbol_liquidate liquidate_pair)
  next
    case False
    with Cons.prems have in_xs: "(k, security) \<in> set xs" and d: "distinct (map fst xs)"
      by auto
    with Cons.prems have "fst x \<noteq> k" by (auto simp: image_iff)
    then show ?thesis
      using Cons.IH [OF d in_xs] by (simp add: instructions_for_def Symbol_liquidate)
  qed
qed

lemma ManageRisk_instructions:
  assumes "distinct (map fst (Securities algorithm))"
    and "(k, security) \<in> set (Securities algorithm)"
  shows "instructions_for k (snd (ManageRisk self algorithm targets)) =
           (if triggers (maximumDrawdownPercent self) (trailingHighs self) (k, security)
            then [PortfolioTarget k 0] else [])"
  by (simp add: ManageRisk_eq [OF assms(1)] instructions_for_liquidate [OF assms])

text \<open>Facts that need no distinct keys.\<close>

lemma ManageRisk_targets: "ManageRisk self algorithm targets = ManageRisk self algorithm []"
  by (simp add: ManageRisk_def)

lemma ManageRisk_mdp:
  "maximumDrawdownPercent (fst (ManageRisk self algorithm targets)) = maximumDrawdownPercent self"
  by (simp add: ManageRisk_def Let_def)

lemma loop_frame:
  "k \<notin> fst ` set xs \<Longrightarrow> fst (ManageRisk_loop mdp xs (highs, acc)) k = highs k"
proof (induction xs arbitrary: highs acc)
  case Nil
  then show ?case by simp
next
  case (Cons kvp rest)
  then have "k \<noteq> fst kvp" and "k \<notin> fst ` set rest" by auto
  then show ?case
    by (simp add: step_eq Cons.IH)
qed

lemma ManageRisk_frame:
  "k \<notin> fst ` set (Securities algorithm) \<Longrightarrow>
   trailingHighs (fst (ManageRisk self algorithm targets)) k = trailingHighs self k"
  by (simp add: ManageRisk_def Let_def loop_frame)

lemma loop_not_invested:
  "\<forall>security. (k, security) \<in> set xs \<longrightarrow> \<not> Invested security \<Longrightarrow> highs k = None \<Longrightarrow>
   fst (ManageRisk_loop mdp xs (highs, acc)) k = None"
proof (induction xs arbitrary: highs acc)
  case Nil
  then show ?case by simp
next
  case (Cons kvp rest)
  have "(highs(fst kvp := next_high (highs (fst kvp)) (snd kvp))) k = None"
  proof (cases "fst kvp = k")
    case True
    then have "(k, snd kvp) \<in> set (kvp # rest)" by (cases kvp) simp
    with Cons.prems(1) have "\<not> Invested (snd kvp)" by blast
    with True show ?thesis by (simp add: next_high_def)
  next
    case False
    with Cons.prems(2) show ?thesis by simp
  qed
  moreover from Cons.prems(1) have "\<forall>security. (k, security) \<in> set rest \<longrightarrow> \<not> Invested security"
    by simp
  ultimately show ?case
    by (simp add: step_eq Cons.IH)
qed

lemma ManageRisk_not_invested:
  "\<forall>security. (k, security) \<in> set (Securities algorithm) \<longrightarrow> \<not> Invested security \<Longrightarrow>
   trailingHighs self k = None \<Longrightarrow>
   trailingHighs (fst (ManageRisk self algorithm targets)) k = None"
  by (simp add: ManageRisk_def Let_def loop_not_invested)

lemma run_append:
  "ManageRisk_run self (xs @ ys) =
     (fst (ManageRisk_run (fst (ManageRisk_run self xs)) ys),
      snd (ManageRisk_run self xs) @ snd (ManageRisk_run (fst (ManageRisk_run self xs)) ys))"
  by (induction xs arbitrary: self) (simp_all add: Let_def)

lemma run_not_invested:
  "\<forall>a \<in> set ticks. \<forall>security. (k, security) \<in> set (Securities a) \<longrightarrow> \<not> Invested security \<Longrightarrow>
   trailingHighs self k = None \<Longrightarrow>
   trailingHighs (fst (ManageRisk_run self ticks)) k = None"
  by (induction ticks arbitrary: self) (simp_all add: Let_def ManageRisk_not_invested)

text \<open>The stored high follows the highest observed high.\<close>

lemma max_as_update: "max (h::real) m = (if m < h then h else m)"
  by (auto simp: max_def)

lemma maximum_of_snoc:
  "maximum_of (hs @ [h]) =
     (case maximum_of hs of None \<Rightarrow> Some h | Some mh \<Rightarrow> if mh < h then Some h else Some mh)"
proof (cases "hs = []")
  case True
  then show ?thesis by (simp add: maximum_of_def)
next
  case False
  let ?m = "Max (set hs)"
  from False have "Max (set (hs @ [h])) = max h ?m"
    by simp
  then have "maximum_of (hs @ [h]) = Some (if ?m < h then h else ?m)"
    by (simp only: maximum_of_def max_as_update) simp
  moreover from False have "maximum_of hs = Some ?m"
    by (simp add: maximum_of_def)
  ultimately show ?thesis
    by (simp del: Max_less_iff)
qed

lemma ManageRisk_observe:
  assumes "distinct (map fst (Securities algorithm))"
    and "trailingHighs self k = maximum_of hs"
  shows "trailingHighs (fst (ManageRisk self algorithm targets)) k =
           maximum_of (observe k hs algorithm)"
proof (cases "map_of (Securities algorithm) k")
  case None
  then have "k \<notin> fst ` set (Securities algorithm)"
    by (simp add: map_of_eq_None_iff)
  with None assms(2) show ?thesis
    by (simp add: ManageRisk_frame observe_def)
next
  case (Some security)
  then have mem: "(k, security) \<in> set (Securities algorithm)"
    by (rule map_of_SomeD)
  show ?thesis
  proof (cases "Invested security")
    case True
    with Some assms(2) show ?thesis
      by (simp add: ManageRisk_highs [OF assms(1) mem] observe_def next_high_def maximum_of_snoc)
  next
    case False
    with Some show ?thesis
      by (simp add: ManageRisk_highs [OF assms(1) mem] observe_def next_high_def maximum_of_def)
  qed
qed

text \<open>Single time steps of the runs considered below.\<close>

lemma strictly_rising_silent:
  assumes "distinct (map fst (Securities a))"
    and "map_of (Securities a) k = Some security"
    and "Invested security"
    and "case trailingHighs self k of None \<Rightarrow> True | Some H \<Rightarrow> H < High security"
  shows "instructions_for k (snd (ManageRisk self a targets)) = []"
proof -
  from assms(2) have mem: "(k, security) \<in> set (Securities a)"
    by (rule map_of_SomeD)
  show ?thesis
    using assms(3,4)
    by (auto simp: ManageRisk_instructions [OF assms(1) mem] triggers_def split: option.splits)
qed

lemma emitted_target_keeps_high:
  assumes "distinct (map fst (Securities algorithm))"
    and "t \<in> set (snd (ManageRisk self algorithm targets))"
  shows "trailingHighs self (Symbol t) \<noteq> None \<and>
         trailingHighs (fst (ManageRisk self algorithm targets)) (Symbol t) =
           trailingHighs self (Symbol t)"
proof -
  from assms(2) obtain kvp where
    mem: "kvp \<in> set (Securities algorithm)"
    and trig: "triggers (maximumDrawdownPercent self) (trailingHighs self) kvp"
    and t: "t = liquidate kvp"
    by (auto simp: ManageRisk_eq [OF assms(1)])
  from mem have mem': "(Symbol t, snd kvp) \<in> set (Securities algorithm)"
    by (simp add: t Symbol_liquidate)
  from trig obtain mh where
    "Invested (snd kvp)" "trailingHighs self (Symbol t) = Some mh" "\<not> mh < High (snd kvp)"
    by (auto simp: triggers_def t Symbol_liquidate split: option.splits)
  then show ?thesis
    by (simp add: ManageRisk_highs [OF assms(1) mem'] next_high_def)
qed

lemma drawdown_tick:
  assumes "trailingHighs self k = Some H"
    and "distinct (map fst (Securities a))"
    and "(k, security) \<in> set (Securities a)"
    and "Invested security"
    and "High security \<le> H"
    and "Low security < float_mul H (float_sub 1 (maximumDrawdownPercent self))"
  shows "trailingHighs (fst (ManageRisk self a targets)) k = Some H \<and>
         instructions_for k (snd (ManageRisk self a targets)) = [PortfolioTarget k 0]"
  using assms(1,4-6)
  by (simp add: ManageRisk_highs [OF assms(2,3)] ManageRisk_instructions [OF assms(2,3)]
      next_high_def triggers_def)


section \<open>Properties\<close>

text \<open>
  C1 (threshold trigger). Let the dictionary of securities hold \<open>symbol\<close> with an invested
  security, let a high \<open>H\<close> be stored for \<open>symbol\<close>, and let the security's high not
  exceed \<open>H\<close>. Then the returned list holds exactly one target for \<open>symbol\<close>, namely
  \<open>PortfolioTarget symbol 0\<close>, if the security's low is strictly below the threshold
  \<^verbatim>\<open>H * (1.0 - maximumDrawdownPercent)\<close> as the program computes it, in float arithmetic,
  and none otherwise; in particular none when the low equals that threshold.
\<close>

theorem threshold_trigger:
  assumes "distinct (map fst (Securities algorithm))"
    and "(symbol, security) \<in> set (Securities algorithm)"
    and "Invested security"
    and "trailingHighs self symbol = Some H"
    and "High security \<le> H"
  shows "instructions_for symbol (snd (ManageRisk self algorithm targets)) =
           (if Low security < float_mul H (float_sub 1 (maximumDrawdownPercent self))
            then [PortfolioTarget symbol 0] else []) \<and>
         (Low security = float_mul H (float_sub 1 (maximumDrawdownPercent self)) \<longrightarrow>
            instructions_for symbol (snd (ManageRisk self algorithm targets)) = [])"
  using assms(3-5) by (simp add: ManageRisk_instructions [OF assms(1,2)] triggers_def)

theorem threshold_trigger_witness:
  "distinct (map fst (Securities (holding ''X'' True 100 94))) \<and>
   instructions_for ''X''
     (snd (ManageRisk (tracking [''X'' \<mapsto> 100])
            (holding ''X'' True 100 94) []))
     = [PortfolioTarget ''X'' 0]"
  using threshold_trigger [of "holding ''X'' True 100 94"
      "''X''" "\<lparr>Invested = True, High = 100, Low = 94\<rparr>"
      "tracking [''X'' \<mapsto> 100]" 100 "[]"]
  by (simp add: threshold_100)

text \<open>
  C2 (establish or advance). Let the dictionary of securities hold \<open>symbol\<close> with an
  invested security, and let either no high be stored for \<open>symbol\<close> or the stored one be
  strictly below the security's high. Then after the call the stored high of \<open>symbol\<close>
  is the security's high, and the returned list holds no target for \<open>symbol\<close>, whatever
  the security's low.
\<close>

theorem establish_or_advance:
  assumes "distinct (map fst (Securities algorithm))"
    and "(symbol, security) \<in> set (Securities algorithm)"
    and "Invested security"
    and "trailingHighs self symbol = None \<or>
         (\<exists>H. trailingHighs self symbol = Some H \<and> H < High security)"
  shows "trailingHighs (fst (ManageRisk self algorithm targets)) symbol = Some (High security) \<and>
         instructions_for symbol (snd (ManageRisk self algorithm targets)) = []"
  using assms(3,4)
  by (auto simp: ManageRisk_instructions [OF assms(1,2)] ManageRisk_highs [OF assms(1,2)]
      triggers_def next_high_def)

theorem establish_or_advance_witness:
  "distinct (map fst (Securities (holding ''Y'' True 55 48))) \<and>
   trailingHighs
     (fst (ManageRisk (tracking [''Y'' \<mapsto> 50])
            (holding ''Y'' True 55 48) [])) ''Y'' = Some 55 \<and>
   instructions_for ''Y''
     (snd (ManageRisk (tracking [''Y'' \<mapsto> 50])
            (holding ''Y'' True 55 48) [])) = []"
  using establish_or_advance [of "holding ''Y'' True 55 48"
      "''Y''" "\<lparr>Invested = True, High = 55, Low = 48\<rparr>"
      "tracking [''Y'' \<mapsto> 50]" "[]"]
  by simp

text \<open>
  C3 (flat eviction). Let the dictionary \<open>a\<close> hold \<open>symbol\<close> with a security that is not
  invested. Then, from any object, the call on \<open>a\<close> leaves no high stored for \<open>symbol\<close>
  and returns no target for it. If time steps follow in which \<open>symbol\<close> is never held
  invested, and then a time step \<open>b\<close> that holds \<open>symbol\<close> invested, the high stored after
  \<open>b\<close> is that security's high, whatever was stored before \<open>a\<close>, and the call on \<open>b\<close>
  returns no target for \<open>symbol\<close>.
\<close>

theorem flat_eviction:
  assumes "distinct (map fst (Securities a))"
    and "(symbol, flat) \<in> set (Securities a)"
    and "\<not> Invested flat"
    and "\<forall>m \<in> set between. \<forall>s. (symbol, s) \<in> set (Securities m) \<longrightarrow> \<not> Invested s"
    and "distinct (map fst (Securities b))"
    and "(symbol, security) \<in> set (Securities b)"
    and "Invested security"
  shows "trailingHighs (fst (ManageRisk self a targets)) symbol = None \<and>
         instructions_for symbol (snd (ManageRisk self a targets)) = [] \<and>
         trailingHighs (fst (ManageRisk_run self (a # between @ [b]))) symbol = Some (High security) \<and>
         instructions_for symbol (last (snd (ManageRisk_run self (a # between @ [b])))) = []"
proof -
  let ?s1 = "fst (ManageRisk self a [])"
  let ?s2 = "fst (ManageRisk_run ?s1 between)"
  have evicted: "trailingHighs (fst (ManageRisk self a targets)) symbol = None"
    using assms(3) by (simp add: ManageRisk_highs [OF assms(1,2)] next_high_def)
  have silent: "instructions_for symbol (snd (ManageRisk self a targets)) = []"
    using assms(3) by (simp add: ManageRisk_instructions [OF assms(1,2)] triggers_def)
  from evicted have "trailingHighs ?s1 symbol = None"
    by (simp add: ManageRisk_targets [of self a targets])
  with assms(4) have none: "trailingHighs ?s2 symbol = None"
    by (rule run_not_invested)
  have fresh: "trailingHighs (fst (ManageRisk ?s2 b [])) symbol = Some (High security)"
    using assms(7) none by (simp add: ManageRisk_highs [OF assms(5,6)] next_high_def)
  have quiet: "instructions_for symbol (snd (ManageRisk ?s2 b [])) = []"
    using assms(7) none by (simp add: ManageRisk_instructions [OF assms(5,6)] triggers_def)
  have "fst (ManageRisk_run self (a # between @ [b])) = fst (ManageRisk ?s2 b [])"
    by (simp add: Let_def run_append)
  moreover have "last (snd (ManageRisk_run self (a # between @ [b]))) = snd (ManageRisk ?s2 b [])"
    by (simp add: Let_def run_append)
  ultimately show ?thesis
    using evicted silent fresh quiet by simp
qed

theorem flat_eviction_witness:
  "distinct (map fst (Securities (holding ''X'' False 90 89))) \<and>
   distinct (map fst (Securities (holding ''X'' True 80 70))) \<and>
   trailingHighs
     (fst (ManageRisk (tracking [''X'' \<mapsto> 100]) (holding ''X'' False 90 89) [])) ''X'' = None \<and>
   instructions_for ''X''
     (snd (ManageRisk (tracking [''X'' \<mapsto> 100]) (holding ''X'' False 90 89) [])) = [] \<and>
   trailingHighs
     (fst (ManageRisk_run (tracking [''X'' \<mapsto> 100])
        [holding ''X'' False 90 89, \<lparr>Securities = []\<rparr>, holding ''X'' True 80 70])) ''X''
     = Some 80 \<and>
   instructions_for ''X''
     (last (snd (ManageRisk_run (tracking [''X'' \<mapsto> 100])
        [holding ''X'' False 90 89, \<lparr>Securities = []\<rparr>, holding ''X'' True 80 70]))) = []"
  using flat_eviction
    [of "holding ''X'' False 90 89" "''X''" "\<lparr>Invested = False, High = 90, Low = 89\<rparr>"
      "[\<lparr>Securities = []\<rparr>]"
      "holding ''X'' True 80 70" "\<lparr>Invested = True, High = 80, Low = 70\<rparr>"
      "tracking [''X'' \<mapsto> 100]" "[]"]
  by simp

text \<open>
  C4 (the stored high is the highest observed high). Let \<open>hs\<close> be the highs observed for
  \<open>k\<close> since its stored high was established (empty when none is stored), and let the
  stored high of \<open>k\<close> be the maximum of \<open>hs\<close>. Then after any run the stored high of \<open>k\<close>
  is the maximum of the highs observed since it was last established: none when \<open>k\<close> was
  last seen not invested, and otherwise the maximum over the time steps that held \<open>k\<close>
  invested since it last had no stored high. The object made by \<open>init\<close> with the empty
  list is such a start.
\<close>

theorem trailing_high_is_maximum:
  assumes "\<forall>a \<in> set ticks. distinct (map fst (Securities a))"
    and "trailingHighs self k = maximum_of hs"
  shows "trailingHighs (fst (ManageRisk_run self ticks)) k = maximum_of (foldl (observe k) hs ticks)"
  using assms
proof (induction ticks arbitrary: self hs)
  case Nil
  then show ?case by simp
next
  case (Cons a later)
  from Cons.prems have d: "distinct (map fst (Securities a))"
    and ds: "\<forall>a \<in> set later. distinct (map fst (Securities a))"
    by simp_all
  have "trailingHighs (fst (ManageRisk self a [])) k = maximum_of (observe k hs a)"
    using d Cons.prems(2) by (rule ManageRisk_observe)
  with ds have "trailingHighs (fst (ManageRisk_run (fst (ManageRisk self a [])) later)) k =
                  maximum_of (foldl (observe k) (observe k hs a) later)"
    by (rule Cons.IH)
  then show ?case by (simp add: Let_def)
qed

theorem trailing_high_is_maximum_witness:
  "distinct (map fst (Securities (holding ''Y'' True 50 50))) \<and>
   distinct (map fst (Securities (holding ''Y'' True 55 48))) \<and>
   trailingHighs (init five_percent) ''Y'' = maximum_of [] \<and>
   foldl (observe ''Y'') [] [holding ''Y'' True 50 50, holding ''Y'' True 55 48] = [50, 55] \<and>
   trailingHighs
     (fst (ManageRisk_run (init five_percent) [holding ''Y'' True 50 50, holding ''Y'' True 55 48])) ''Y''
     = Some 55"
  using trailing_high_is_maximum
    [of "[holding ''Y'' True 50 50, holding ''Y'' True 55 48]" "init five_percent" "''Y''" "[]"]
  by (simp add: maximum_of_def observe_def init_def)

text \<open>
  C5 (rising high, no trigger), amended. In a run where at every time step \<open>k\<close> is held
  invested and the security's high is strictly above the high stored before that time
  step (or none is stored), no call returns a target for \<open>k\<close>, whatever the lows.
\<close>

theorem rising_high_no_trigger:
  assumes "\<forall>a \<in> set ticks. distinct (map fst (Securities a))"
    and "stored_related (<) self k ticks"
  shows "\<forall>out \<in> set (snd (ManageRisk_run self ticks)). instructions_for k out = []"
  using assms
proof (induction ticks arbitrary: self)
  case Nil
  then show ?case by simp
next
  case (Cons a later)
  from Cons.prems(1) have d: "distinct (map fst (Securities a))"
    and ds: "\<forall>a \<in> set later. distinct (map fst (Securities a))"
    by simp_all
  from Cons.prems(2) obtain security where
    sec: "map_of (Securities a) k = Some security" "Invested security"
      "case trailingHighs self k of None \<Rightarrow> True | Some H \<Rightarrow> H < High security"
    and rest: "stored_related (<) (fst (ManageRisk self a [])) k later"
    by (auto split: option.splits)
  have "instructions_for k (snd (ManageRisk self a [])) = []"
    using d sec by (rule strictly_rising_silent)
  moreover have "\<forall>out \<in> set (snd (ManageRisk_run (fst (ManageRisk self a [])) later)).
                   instructions_for k out = []"
    using ds rest by (rule Cons.IH)
  ultimately show ?case by (simp add: Let_def)
qed

theorem rising_high_no_trigger_witness:
  "distinct (map fst (Securities (holding ''X'' True 100 98))) \<and>
   distinct (map fst (Securities (holding ''X'' True 101 0))) \<and>
   stored_related (<) (init five_percent) ''X'' [holding ''X'' True 100 98, holding ''X'' True 101 0] \<and>
   instructions_for ''X'' (snd (ManageRisk (init five_percent) (holding ''X'' True 100 98) [])) = [] \<and>
   instructions_for ''X''
     (snd (ManageRisk (fst (ManageRisk (init five_percent) (holding ''X'' True 100 98) []))
        (holding ''X'' True 101 0) [])) = []"
proof -
  have rising:
    "stored_related (<) (init five_percent) ''X'' [holding ''X'' True 100 98, holding ''X'' True 101 0]"
    by (simp add: ManageRisk_def ManageRisk_step_def Let_def init_def instructions_for_def)
  show ?thesis
    using rising rising_high_no_trigger
      [of "[holding ''X'' True 100 98, holding ''X'' True 101 0]" "init five_percent" "''X''"]
    by (simp add: Let_def)
qed

text \<open>
  C5 as first stated, with "not below" in place of "strictly above", fails: from \<open>init five_percent\<close>, a
  first time step with high 100 and low 98 stores 100; a second one with high 100, not
  below the stored 100, and low 94 returns a target.
\<close>

theorem equal_high_triggers:
  "stored_related (\<le>) (init five_percent) ''X''
     [holding ''X'' True 100 98,
      holding ''X'' True 100 94] \<and>
   instructions_for ''X''
     (last (snd (ManageRisk_run (init five_percent)
        [holding ''X'' True 100 98,
         holding ''X'' True 100 94])))
     = [PortfolioTarget ''X'' 0]"
  by (simp add: init_def ManageRisk_def ManageRisk_step_def Let_def instructions_for_def
      abs_five_percent threshold_100)

text \<open>
  C6 (emission leaves the stored highs alone). An iteration that appends a target
  returns the dictionary of stored highs it was given. An iteration after which a
  symbol has lost its stored high visited that symbol with a security that is not
  invested. For a whole call over a dictionary: a symbol named by a returned target had a
  stored high before the call and has the same one after it.
\<close>

theorem emission_leaves_state:
  "(snd (ManageRisk_step mdp kvp st) \<noteq> snd st \<longrightarrow> fst (ManageRisk_step mdp kvp st) = fst st) \<and>
   (fst st' k \<noteq> None \<and> fst (ManageRisk_step mdp' kvp' st') k = None \<longrightarrow>
      fst kvp' = k \<and> \<not> Invested (snd kvp')) \<and>
   (distinct (map fst (Securities algorithm)) \<and>
    t \<in> set (snd (ManageRisk self algorithm targets)) \<longrightarrow>
      trailingHighs self (Symbol t) \<noteq> None \<and>
      trailingHighs (fst (ManageRisk self algorithm targets)) (Symbol t) =
        trailingHighs self (Symbol t))"
  using step_emission_keeps_highs [of mdp kvp st] step_removal_is_flat [of st' k mdp' kvp']
    emitted_target_keeps_high [of algorithm t self targets]
  by blast

theorem emission_leaves_state_witness:
  "snd (ManageRisk_step five_percent (''X'', \<lparr>Invested = True, High = 100, Low = 94\<rparr>) ([''X'' \<mapsto> 100], []))
     \<noteq> snd ([''X'' \<mapsto> (100::real)], [] :: string PortfolioTarget list) \<and>
   fst (ManageRisk_step five_percent (''X'', \<lparr>Invested = True, High = 100, Low = 94\<rparr>) ([''X'' \<mapsto> 100], []))
     = fst ([''X'' \<mapsto> (100::real)], [] :: string PortfolioTarget list) \<and>
   fst ([''X'' \<mapsto> (100::real)], [] :: string PortfolioTarget list) ''X'' \<noteq> None \<and>
   fst (ManageRisk_step five_percent (''X'', \<lparr>Invested = False, High = 90, Low = 89\<rparr>) ([''X'' \<mapsto> 100], [])) ''X''
     = None \<and>
   distinct (map fst (Securities (holding ''X'' True 100 94))) \<and>
   PortfolioTarget ''X'' 0
     \<in> set (snd (ManageRisk (tracking [''X'' \<mapsto> 100]) (holding ''X'' True 100 94) [])) \<and>
   trailingHighs
     (fst (ManageRisk (tracking [''X'' \<mapsto> 100]) (holding ''X'' True 100 94) [])) ''X'' = Some 100"
proof -
  have emitted: "snd (ManageRisk_step five_percent (''X'', \<lparr>Invested = True, High = 100, Low = 94\<rparr>) ([''X'' \<mapsto> 100], []))
     \<noteq> snd ([''X'' \<mapsto> (100::real)], [] :: string PortfolioTarget list)"
    by (simp add: ManageRisk_step_def Let_def threshold_100)
  have removed: "fst (ManageRisk_step five_percent (''X'', \<lparr>Invested = False, High = 90, Low = 89\<rparr>) ([''X'' \<mapsto> 100], [])) ''X''
     = None"
    by (simp add: ManageRisk_step_def Let_def)
  have member: "PortfolioTarget ''X'' 0
     \<in> set (snd (ManageRisk (tracking [''X'' \<mapsto> 100]) (holding ''X'' True 100 94) []))"
    by (simp add: ManageRisk_def ManageRisk_step_def Let_def threshold_100)
  show ?thesis
    using emitted removed member
      emission_leaves_state [of five_percent "(''X'', \<lparr>Invested = True, High = 100, Low = 94\<rparr>)"
        "([''X'' \<mapsto> 100], [])" "([''X'' \<mapsto> 100], [])" "''X''" five_percent
        "(''X'', \<lparr>Invested = False, High = 90, Low = 89\<rparr>)"
        "holding ''X'' True 100 94" "PortfolioTarget ''X'' 0"
        "tracking [''X'' \<mapsto> 100]" "[]"]
    by simp
qed

text \<open>
  C7 (sign of the configuration). \<open>init (- f)\<close> and \<open>init f\<close> are the same object, with
  drawdown percentage \<open>\<bar>f\<bar>\<close>, so every run from one returns what it returns from the
  other and ends in the same object.
\<close>

theorem sign_of_configuration:
  "(init (- f) :: 'k TrailingStopRiskManagementModel) = init f \<and>
   maximumDrawdownPercent (init (- f) :: 'k TrailingStopRiskManagementModel) = \<bar>f\<bar> \<and>
   ManageRisk_run (init (- f)) (ticks :: 'k QCAlgorithm list) = ManageRisk_run (init f) ticks"
  by (simp add: init_def)

theorem sign_of_configuration_witness:
  "0 \<le> five_percent \<and>
   ManageRisk_run (init (- five_percent)) [holding ''X'' True 100 98, holding ''X'' True 100 94] =
     ManageRisk_run (init five_percent) [holding ''X'' True 100 98, holding ''X'' True 100 94]"
  using sign_of_configuration
    [of five_percent "[holding ''X'' True 100 98, holding ''X'' True 100 94]"]
  by (simp add: five_percent_nonneg)

text \<open>
  C8 (repeated instruction). Let \<open>H\<close> be stored for \<open>k\<close>. In a run where every time step
  holds \<open>k\<close> invested with a high not above \<open>H\<close> and a low strictly below the threshold
  \<^verbatim>\<open>H * (1.0 - maximumDrawdownPercent)\<close> as the program computes it, in float arithmetic,
  every call returns exactly one target for \<open>k\<close>, \<open>PortfolioTarget k 0\<close>, and \<open>H\<close> stays
  stored.
\<close>

theorem repeated_instruction:
  assumes "trailingHighs self k = Some H"
    and "\<forall>a \<in> set ticks. distinct (map fst (Securities a)) \<and>
           (\<exists>security. (k, security) \<in> set (Securities a) \<and> Invested security \<and>
              High security \<le> H \<and> Low security < float_mul H (float_sub 1 (maximumDrawdownPercent self)))"
  shows "length (snd (ManageRisk_run self ticks)) = length ticks \<and>
         (\<forall>out \<in> set (snd (ManageRisk_run self ticks)).
            instructions_for k out = [PortfolioTarget k 0]) \<and>
         trailingHighs (fst (ManageRisk_run self ticks)) k = Some H"
  using assms
proof (induction ticks arbitrary: self)
  case Nil
  then show ?case by simp
next
  case (Cons a later)
  let ?s = "fst (ManageRisk self a [])"
  from Cons.prems(2) obtain security where
    d: "distinct (map fst (Securities a))" and mem: "(k, security) \<in> set (Securities a)"
    and sec: "Invested security" "High security \<le> H"
      "Low security < float_mul H (float_sub 1 (maximumDrawdownPercent self))"
    by auto
  have now: "trailingHighs ?s k = Some H \<and>
             instructions_for k (snd (ManageRisk self a [])) = [PortfolioTarget k 0]"
    using Cons.prems(1) d mem sec by (rule drawdown_tick)
  have "\<forall>a \<in> set later. distinct (map fst (Securities a)) \<and>
           (\<exists>security. (k, security) \<in> set (Securities a) \<and> Invested security \<and>
              High security \<le> H \<and> Low security < float_mul H (float_sub 1 (maximumDrawdownPercent ?s)))"
    using Cons.prems(2) by (simp add: ManageRisk_mdp)
  with now have "length (snd (ManageRisk_run ?s later)) = length later \<and>
         (\<forall>out \<in> set (snd (ManageRisk_run ?s later)).
            instructions_for k out = [PortfolioTarget k 0]) \<and>
         trailingHighs (fst (ManageRisk_run ?s later)) k = Some H"
    by (intro Cons.IH) simp_all
  with now show ?case by (simp add: Let_def)
qed

theorem repeated_instruction_witness:
  "trailingHighs (tracking [''X'' \<mapsto> 100]) ''X'' = Some 100 \<and>
   distinct (map fst (Securities (holding ''X'' True 100 94))) \<and>
   distinct (map fst (Securities (holding ''X'' True 99 90))) \<and>
   snd (ManageRisk_run (tracking [''X'' \<mapsto> 100])
          [holding ''X'' True 100 94, holding ''X'' True 99 90])
     = [[PortfolioTarget ''X'' 0], [PortfolioTarget ''X'' 0]] \<and>
   trailingHighs
     (fst (ManageRisk_run (tracking [''X'' \<mapsto> 100])
        [holding ''X'' True 100 94, holding ''X'' True 99 90])) ''X'' = Some 100"
proof -
  have outs:
    "snd (ManageRisk_run (tracking [''X'' \<mapsto> 100])
            [holding ''X'' True 100 94, holding ''X'' True 99 90])
       = [[PortfolioTarget ''X'' 0], [PortfolioTarget ''X'' 0]]"
    by (simp add: ManageRisk_def ManageRisk_step_def Let_def threshold_100)
  show ?thesis
    using outs repeated_instruction
      [of "tracking [''X'' \<mapsto> 100]" "''X''" 100
        "[holding ''X'' True 100 94, holding ''X'' True 99 90]"]
    by (simp add: threshold_100)
qed

text \<open>
  C9 (order of the returned list). The returned list is the list of the dictionary's
  entries that meet the trigger condition (with the threshold in float arithmetic, as the
  program computes it) against the highs stored before the call, in the order of
  enumeration, each as \<open>PortfolioTarget symbol 0\<close>.
\<close>

theorem output_in_snapshot_order:
  assumes "distinct (map fst (Securities algorithm))"
  shows "snd (ManageRisk self algorithm targets) =
           map (\<lambda>kvp. PortfolioTarget (fst kvp) 0)
             (filter (triggers (maximumDrawdownPercent self) (trailingHighs self))
                (Securities algorithm))"
proof -
  have "liquidate = (\<lambda>kvp :: 'a \<times> Security. PortfolioTarget (fst kvp) 0)"
    by (simp add: fun_eq_iff liquidate_def)
  then show ?thesis
    by (simp add: ManageRisk_eq [OF assms])
qed

theorem output_in_snapshot_order_witness:
  "distinct (map fst (Securities
      \<lparr>Securities =
        [(''A'', \<lparr>Invested = True, High = 10, Low = 5\<rparr>),
         (''B'', \<lparr>Invested = False, High = 3, Low = 1\<rparr>),
         (''C'', \<lparr>Invested = True, High = 20, Low = 10\<rparr>)]\<rparr>)) \<and>
   snd (ManageRisk (tracking [''A'' \<mapsto> 10, ''C'' \<mapsto> 20])
      \<lparr>Securities =
        [(''A'', \<lparr>Invested = True, High = 10, Low = 5\<rparr>),
         (''B'', \<lparr>Invested = False, High = 3, Low = 1\<rparr>),
         (''C'', \<lparr>Invested = True, High = 20, Low = 10\<rparr>)]\<rparr> [])
     = [PortfolioTarget ''A'' 0, PortfolioTarget ''C'' 0]"
  using output_in_snapshot_order
    [of "\<lparr>Securities =
          [(''A'', \<lparr>Invested = True, High = 10, Low = 5\<rparr>),
           (''B'', \<lparr>Invested = False, High = 3, Low = 1\<rparr>),
           (''C'', \<lparr>Invested = True, High = 20, Low = 10\<rparr>)]\<rparr>"
      "tracking [''A'' \<mapsto> 10, ''C'' \<mapsto> 20]" "[]"]
  by (simp add: triggers_def threshold_10 threshold_20)

text \<open>
  C10 (symbols not enumerated). A call whose dictionary does not hold \<open>k\<close> leaves the
  stored high of \<open>k\<close>, present or absent, as it was; so does any run of such calls.
\<close>

theorem unobserved_symbol_untouched:
  assumes "\<forall>a \<in> set ticks. k \<notin> fst ` set (Securities a)"
  shows "trailingHighs (fst (ManageRisk_run self ticks)) k = trailingHighs self k \<and>
         (\<forall>a \<in> set ticks. \<forall>s targets.
            trailingHighs (fst (ManageRisk s a targets)) k = trailingHighs s k)"
proof -
  from assms have "trailingHighs (fst (ManageRisk_run self ticks)) k = trailingHighs self k"
    by (induction ticks arbitrary: self) (simp_all add: Let_def ManageRisk_frame)
  with assms show ?thesis
    by (simp add: ManageRisk_frame)
qed

theorem unobserved_symbol_untouched_witness:
  "''Z'' \<notin> fst ` set (Securities (holding ''X'' True 100 98)) \<and>
   ''Z'' \<notin> fst ` set (Securities (holding ''X'' True 100 94)) \<and>
   trailingHighs
     (fst (ManageRisk_run (tracking [''Z'' \<mapsto> 7])
        [holding ''X'' True 100 98, holding ''X'' True 100 94])) ''Z'' = Some 7"
  using unobserved_symbol_untouched
    [of "[holding ''X'' True 100 98, holding ''X'' True 100 94]" "''Z''"
      "tracking [''Z'' \<mapsto> 7]"]
  by simp

end
